theory Spec2Isabelle
  imports Complex_Main
begin

section \<open>Equipment automation: the IIP2 sweep of \<open>linearity_measurement.py\<close>\<close>

text \<open>
  The development embeds \<open>LinearityMeasurement\<close> (\<open>src/lib/linearity_measurement.py\<close>)
  together with the two instrument drivers it talks to (\<open>src/signal_generator.py\<close>,
  \<open>src/lib/oscilloscope.py\<close>).

  Numbers. Python and numpy compute in IEEE float64. The embedding idealises every finite
  float as a \<^typ>\<open>real\<close> (no rounding error, no overflow); the two places where numpy
  leaves the finite numbers without raising, \<open>np.log10(0)\<close> and a float64 division by
  zero, are kept as values of their own in the type \<open>fval\<close> below. Two results of the
  program are decided by the rounding that the idealisation leaves out: whether a fitted
  slope that is zero in exact arithmetic comes out as the float zero, and to which side a
  level is rounded when its scaled value is within rounding error of a tie. The statements
  about the intercept of a degenerate fit and about the levels of a sweep are worded so
  that they do not depend on either.

  Effects. The instruments are reached through \<open>pyvisa\<close> writes and queries. The state
  \<open>world\<close> records every command written to either instrument, the signal generator's
  output switches, the replies the oscilloscope is going to give to \<open>:WAVeform:DATA?\<close>
  and what the program printed. An exception is a value \<open>Inl e\<close>; a function that can
  raise after it has touched an instrument returns the state it raised in.
\<close>

subsection \<open>Values and errors\<close>

datatype py_error = ValueError | TypeError | ZeroDivisionError | LinAlgError | VisaIOError

text \<open>
  A float64 as numpy may return it: a finite number, an infinity (the sign is not
  tracked: \<open>log10(0)\<close> is \<open>-inf\<close>, \<open>x / 0\<close> takes its sign from \<open>x\<close> and from the sign of
  the float zero, which a real number does not have), or NaN.
\<close>

datatype fval = Fin real | Infty | NaN

fun is_fin :: "fval \<Rightarrow> bool" where
  "is_fin (Fin _) = True"
| "is_fin _ = False"

fun the_fin :: "fval \<Rightarrow> real" where
  "the_fin (Fin x) = x"
| "the_fin _ = 0"

text \<open>\<open>x / y\<close> on numpy float64 scalars: a zero divisor gives a warning and \<open>inf\<close> or \<open>nan\<close>.\<close>

definition np_divide :: "real \<Rightarrow> real \<Rightarrow> fval" where
  "np_divide x y = (if y \<noteq> 0 then Fin (x / y) else if x = 0 then NaN else Infty)"

text \<open>\<open>10 * np.log10(p)\<close> for \<open>p \<ge> 0\<close>: \<open>log10(0)\<close> is \<open>-inf\<close> with a warning.\<close>

definition ten_log10 :: "real \<Rightarrow> fval" where
  "ten_log10 p = (if p = 0 then Infty else if p < 0 then NaN else Fin (10 * log 10 p))"

subsection \<open>numpy: \<open>rint\<close>, \<open>round\<close>, \<open>linspace\<close>, \<open>argmin\<close>\<close>

text \<open>\<open>np.rint\<close>: the nearest integer, a tie going to the even one.\<close>

definition rint :: "real \<Rightarrow> int" where
  "rint x = (let f = \<lfloor>x\<rfloor>; d = x - of_int f in
     if d < 1 / 2 then f else if 1 / 2 < d then f + 1 else if even f then f else f + 1)"

text \<open>
  \<open>np.round(x, d)\<close> for \<open>d > 0\<close>: scale by \<open>10 ** d\<close>, \<open>rint\<close>, scale back. The product
  is the exact one; numpy rounds the product to a float64 first, so that a value within
  rounding error of a tie may go to the other neighbour, one unit \<open>10 ** -d\<close> away.
\<close>

definition np_round :: "real \<Rightarrow> nat \<Rightarrow> real" where
  "np_round x d = of_int (rint (x * 10 ^ d)) / 10 ^ d"

text \<open>
  \<open>np.linspace(start, stop, num)\<close> with \<open>endpoint=True\<close>: a negative \<open>num\<close> raises
  ValueError; otherwise \<open>arange(num) * step + start\<close> with \<open>step = (stop - start) / (num - 1)\<close>
  (through \<open>arange(num) / (num - 1) * delta\<close> when the step is zero, and
  \<open>arange(num) * delta\<close> when \<open>num - 1\<close> is not positive), and the last element overwritten
  with \<open>stop\<close> when \<open>num > 1\<close>.
\<close>

definition linspace :: "real \<Rightarrow> real \<Rightarrow> int \<Rightarrow> py_error + real list" where
  "linspace start stop num =
     (if num < 0 then Inl ValueError
      else
        let n = nat num;
            dv = real n - 1;
            delta = stop - start;
            y = map real [0..<n];
            y1 = (if 0 < dv then
                    (let step = delta / dv in
                     if step = 0 then map (\<lambda>v. v / dv * delta) y else map (\<lambda>v. v * step) y)
                  else map (\<lambda>v. v * delta) y);
            y2 = map (\<lambda>v. v + start) y1
        in Inr (if 1 < n then butlast y2 @ [stop] else y2))"

text \<open>
  \<open>np.argmin\<close>: the index of the first occurrence of the minimum; an empty sequence
  raises ValueError.
\<close>

fun argmin1 :: "real \<Rightarrow> real list \<Rightarrow> nat" where
  "argmin1 x [] = 0"
| "argmin1 x (y # ys) = (let j = argmin1 y ys in if x \<le> (y # ys) ! j then 0 else Suc j)"

definition argmin :: "real list \<Rightarrow> py_error + nat" where
  "argmin xs = (case xs of [] \<Rightarrow> Inl ValueError | x # ys \<Rightarrow> Inr (argmin1 x ys))"

subsection \<open>numpy: \<open>fft.fft\<close>, \<open>fft.fftfreq\<close>, \<open>polyfit\<close>\<close>

text \<open>
  \<open>np.fft.fft\<close> of a real sequence of length \<open>N > 0\<close>: bin \<open>k\<close> is
  \<open>\<Sum>n<N. x[n] * exp(-2\<pi>i k n / N)\<close>. (On an empty input numpy raises ValueError; the
  caller below makes this case explicit.)
\<close>

definition dft_bin :: "real list \<Rightarrow> nat \<Rightarrow> complex" where
  "dft_bin xs k =
     (\<Sum>n\<leftarrow>[0..<length xs]. of_real (xs ! n) * cis (- (2 * pi * real k * real n / real (length xs))))"

definition fft :: "real list \<Rightarrow> complex list" where
  "fft xs = map (dft_bin xs) [0..<length xs]"

text \<open>
  \<open>np.fft.fftfreq(n, d)\<close>: \<open>[0, 1, ..., (n-1)//2, -(n//2), ..., -1] * (1 / (n * d))\<close>.
\<close>

definition fftfreq :: "nat \<Rightarrow> real \<Rightarrow> real list" where
  "fftfreq n d =
     map (\<lambda>k. (if k \<le> (n - 1) div 2 then real k else real k - real n) * (1 / (real n * d))) [0..<n]"

text \<open>
  \<open>np.polyfit(x, y, 1)\<close>, returning (slope, intercept). An empty \<open>x\<close> and a \<open>y\<close> of another
  length raise TypeError. For finite data with at least two distinct abscissae the
  result is the solution of the normal equations of the least-squares problem. The other
  branches follow numpy's implementation (\<open>lstsq\<close> on the Vandermonde matrix with its
  columns scaled to unit norm): when all abscissae are one value \<open>v \<noteq> 0\<close> the system is
  rank deficient and the minimum-norm solution \<open>(m / (2 v), m / 2)\<close> is returned, \<open>m\<close> the
  mean of \<open>y\<close>; when they are all zero the scaling divides zero by zero and the
  decomposition fails with LinAlgError; a non-finite \<open>y\<close> makes both coefficients NaN.
  The arithmetic is exact. numpy's float64 fit agrees up to rounding error; where the
  exact slope is zero it may therefore return a slope of the order of \<open>1e-16\<close> instead
  (for \<open>y\<close> all zero it returns exactly zero, as here).
\<close>

definition polyfit1 :: "real list \<Rightarrow> fval list \<Rightarrow> py_error + fval \<times> fval" where
  "polyfit1 xs ys =
     (if xs = [] then Inl TypeError
      else if length xs \<noteq> length ys then Inl TypeError
      else if \<not> list_all is_fin ys then Inr (NaN, NaN)
      else
        let n = real (length xs);
            zs = map the_fin ys;
            sx = sum_list xs;
            sy = sum_list zs;
            sxx = sum_list (map (\<lambda>x. x * x) xs);
            sxy = sum_list (map (\<lambda>(x, z). x * z) (zip xs zs));
            D = n * sxx - sx * sx
        in if D \<noteq> 0 then
             (let a = (n * sxy - sx * sy) / D; b = (sy - a * sx) / n in Inr (Fin a, Fin b))
           else if sx = 0 then Inl LinAlgError
           else (let v = sx / n; m = sy / n in Inr (Fin (m / (2 * v)), Fin (m / 2))))"

text \<open>Negation and division of float64 scalars.\<close>

fun fv_neg :: "fval \<Rightarrow> fval" where
  "fv_neg (Fin x) = Fin (- x)"
| "fv_neg Infty = Infty"
| "fv_neg NaN = NaN"

fun fv_divide :: "fval \<Rightarrow> fval \<Rightarrow> fval" where
  "fv_divide (Fin x) (Fin y) = np_divide x y"
| "fv_divide (Fin x) Infty = Fin 0"
| "fv_divide Infty (Fin y) = Infty"
| "fv_divide Infty Infty = NaN"
| "fv_divide NaN _ = NaN"
| "fv_divide _ NaN = NaN"

subsection \<open>\<open>LinearityMeasurement.calculate_intercept\<close>\<close>

definition calculate_intercept :: "real list \<Rightarrow> fval list \<Rightarrow> py_error + fval" where
  "calculate_intercept input_voltages products =
     (case polyfit1 input_voltages products of
        Inl e \<Rightarrow> Inl e
      | Inr (c0, c1) \<Rightarrow> Inr (fv_divide (fv_neg c1) c0))"

text \<open>
  The same function with \<open>np.polyfit\<close> left open: what \<open>calculate_intercept\<close> does with
  whatever the fit returns or raises.
\<close>

definition calculate_intercept_with ::
  "(real list \<Rightarrow> fval list \<Rightarrow> py_error + fval \<times> fval) \<Rightarrow> real list \<Rightarrow> fval list \<Rightarrow> py_error + fval" where
  "calculate_intercept_with polyfit input_voltages products =
     (case polyfit input_voltages products of
        Inl e \<Rightarrow> Inl e
      | Inr (c0, c1) \<Rightarrow> Inr (fv_divide (fv_neg c1) c0))"

subsection \<open>\<open>LinearityMeasurement.calculate_second_order_product\<close>\<close>

text \<open>
  \<open>np.fft.fft\<close> raises ValueError on an empty waveform; \<open>1/fs\<close> is a division of Python
  floats and raises ZeroDivisionError for \<open>fs = 0\<close>; \<open>np.argmin\<close> raises ValueError when
  the retained half \<open>fft[:len(fft) // 2]\<close> is empty.
\<close>

definition calculate_second_order_product ::
  "real list \<Rightarrow> real \<Rightarrow> real \<Rightarrow> real \<Rightarrow> py_error + fval" where
  "calculate_second_order_product waveform_volts freq1 freq2 fs =
     (if waveform_volts = [] then Inl ValueError
      else if fs = 0 then Inl ZeroDivisionError
      else
        let ft = fft waveform_volts;
            freqs = fftfreq (length waveform_volts) (1 / fs);
            half = length ft div 2;
            fft_magnitude = map (\<lambda>z. cmod z / real (length (take half ft))) (take half ft);
            fft_freq = take half freqs;
            f_sum = freq1 + freq2;
            f_diff = \<bar>freq1 - freq2\<bar>
        in case argmin (map (\<lambda>f. \<bar>f - f_sum\<bar>) fft_freq) of
             Inl e \<Rightarrow> Inl e
           | Inr idx_sum \<Rightarrow>
              (case argmin (map (\<lambda>f. \<bar>f - f_diff\<bar>) fft_freq) of
                 Inl e \<Rightarrow> Inl e
               | Inr idx_diff \<Rightarrow>
                   let second_order_power_sum = (fft_magnitude ! idx_sum) ^ 2;
                       second_order_power_diff = (fft_magnitude ! idx_diff) ^ 2;
                       second_order_power = max second_order_power_sum second_order_power_diff
                   in Inr (ten_log10 second_order_power)))"

subsection \<open>The instruments\<close>

datatype sg_cmd = Apply string real real real | OutpOn nat | OutpOff nat

datatype osc_cmd =
    Run | Stop | TimebaseScale real | ChannelScale nat real
  | TriggerSource nat | TriggerLevel real
  | WavSource nat | WavMode string | WavFormat string | WavStart real | WavStop real
  | WavDataQ | OpcQ

text \<open>
  What the oscilloscope answers to \<open>:WAVeform:DATA?\<close>, classified by what
  \<open>get_waveform_data\<close> makes of it: no answer within the timeout (\<open>pyvisa\<close> raises
  VisaIOError), an answer that \<open>float\<close> rejects after the 11-character header is dropped
  and the rest split at commas (ValueError), or the list of samples.
\<close>

datatype capture = Timeout | Garbled | Samples "real list"

datatype out_line = Level real | IIP2 fval

record world =
  sg_out1 :: bool
  sg_out2 :: bool
  sg_log :: "sg_cmd list"
  osc_log :: "osc_cmd list"
  replies :: "capture list"
  printed :: "out_line list"

text \<open>A write to the signal generator: the command is received, and \<open>OUTPn ON|OFF\<close> switch.\<close>

fun sg_effect :: "sg_cmd \<Rightarrow> world \<Rightarrow> world" where
  "sg_effect (OutpOn ch) w =
     (if ch = 1 then w\<lparr>sg_out1 := True\<rparr> else if ch = 2 then w\<lparr>sg_out2 := True\<rparr> else w)"
| "sg_effect (OutpOff ch) w =
     (if ch = 1 then w\<lparr>sg_out1 := False\<rparr> else if ch = 2 then w\<lparr>sg_out2 := False\<rparr> else w)"
| "sg_effect (Apply k f a off) w = w"

definition sg_write :: "sg_cmd \<Rightarrow> world \<Rightarrow> world" where
  "sg_write c w = sg_effect c (w\<lparr>sg_log := sg_log w @ [c]\<rparr>)"

definition osc_write :: "osc_cmd \<Rightarrow> world \<Rightarrow> world" where
  "osc_write c w = w\<lparr>osc_log := osc_log w @ [c]\<rparr>"

paragraph \<open>\<open>signal_generator.py\<close>\<close>

definition enable_output :: "nat \<Rightarrow> world \<Rightarrow> world" where
  "enable_output channel w =
     (if channel = 1 then sg_write (OutpOn 1) w
      else if channel = 2 then sg_write (OutpOn 2) w else w)"

definition disable_output :: "nat \<Rightarrow> world \<Rightarrow> world" where
  "disable_output channel w =
     (if channel = 1 then sg_write (OutpOff 1) w
      else if channel = 2 then sg_write (OutpOff 2) w else w)"

definition set_waveform :: "string \<Rightarrow> real \<Rightarrow> real \<Rightarrow> real \<Rightarrow> world \<Rightarrow> world" where
  "set_waveform waveform_type frequency amplitude offset w =
     sg_write (Apply waveform_type frequency amplitude offset) w"

paragraph \<open>\<open>oscilloscope.py\<close>\<close>

definition set_channel_scale :: "nat \<Rightarrow> real \<Rightarrow> world \<Rightarrow> world" where
  "set_channel_scale channel scale w =
     (if channel = 1 then osc_write (ChannelScale 1 scale) w
      else if channel = 2 then osc_write (ChannelScale 2 scale) w else w)"

definition get_waveform_data :: "nat \<Rightarrow> world \<Rightarrow> (py_error + real list) \<times> world" where
  "get_waveform_data channel w =
     (let w1 = osc_write (WavStop 1200) (osc_write (WavStart 1) (osc_write (WavFormat ''ASCii'')
                 (osc_write (WavMode ''NORMAL'') (osc_write (WavSource channel)
                 (osc_write Stop w)))));
          w2 = osc_write WavDataQ w1
      in case replies w2 of
           [] \<Rightarrow> (Inl VisaIOError, w2)
         | Timeout # rs \<Rightarrow> (Inl VisaIOError, w2\<lparr>replies := rs\<rparr>)
         | Garbled # rs \<Rightarrow> (Inl ValueError, osc_write OpcQ (w2\<lparr>replies := rs\<rparr>))
         | Samples volts # rs \<Rightarrow> (Inr volts, osc_write OpcQ (w2\<lparr>replies := rs\<rparr>)))"

subsection \<open>\<open>LinearityMeasurement.set_oscilloscope\<close>\<close>

text \<open>\<open>2/freq\<close> divides by a Python float: ZeroDivisionError for \<open>freq = 0\<close>.\<close>

definition set_oscilloscope :: "real \<Rightarrow> real \<Rightarrow> world \<Rightarrow> (py_error + unit) \<times> world" where
  "set_oscilloscope freq amp w =
     (if freq = 0 then (Inl ZeroDivisionError, w)
      else (Inr (),
            osc_write (TriggerLevel 0) (osc_write (TriggerSource 1)
              (set_channel_scale 1 (amp * 20) (osc_write (TimebaseScale (2 / freq)) w)))))"

subsection \<open>\<open>LinearityMeasurement.measure_iip2\<close>\<close>

definition print_line :: "out_line \<Rightarrow> world \<Rightarrow> world" where
  "print_line l w = w\<lparr>printed := printed w @ [l]\<rparr>"

text \<open>The body of the \<open>for voltage in input_voltages\<close> loop, up to the \<open>append\<close>.\<close>

definition sweep_step :: "real \<Rightarrow> real \<Rightarrow> real \<Rightarrow> real \<Rightarrow> world \<Rightarrow> (py_error + fval) \<times> world" where
  "sweep_step freq1 freq2 fs voltage w =
     (let w1 = enable_output 1 (set_waveform ''SIN'' freq1 voltage 0 w) in
      case set_oscilloscope freq1 voltage w1 of
        (Inl e, w2) \<Rightarrow> (Inl e, w2)
      | (Inr u, w2) \<Rightarrow>
         (let w3 = osc_write Run (print_line (Level voltage) w2) in
          case get_waveform_data 1 w3 of
            (Inl e, w4) \<Rightarrow> (Inl e, w4)
          | (Inr waveform_volts, w4) \<Rightarrow>
             (case calculate_second_order_product waveform_volts freq1 freq2 fs of
                Inl e \<Rightarrow> (Inl e, w4)
              | Inr second_order_power \<Rightarrow> (Inr second_order_power, osc_write Stop w4))))"

text \<open>The loop: an exception in a step leaves the loop and the function.\<close>

fun sweep_loop ::
  "real \<Rightarrow> real \<Rightarrow> real \<Rightarrow> real list \<Rightarrow> fval list \<Rightarrow> world \<Rightarrow> (py_error + fval list) \<times> world" where
  "sweep_loop freq1 freq2 fs [] second_order_products w = (Inr second_order_products, w)"
| "sweep_loop freq1 freq2 fs (voltage # vs) second_order_products w =
     (case sweep_step freq1 freq2 fs voltage w of
        (Inl e, w') \<Rightarrow> (Inl e, w')
      | (Inr p, w') \<Rightarrow> sweep_loop freq1 freq2 fs vs (second_order_products @ [p]) w')"

text \<open>Line 35: \<open>np.round(np.linspace(start_voltage, stop_voltage, num), 5)\<close>.\<close>

definition input_levels :: "real \<Rightarrow> real \<Rightarrow> int \<Rightarrow> py_error + real list" where
  "input_levels start_voltage stop_voltage num =
     (case linspace start_voltage stop_voltage num of
        Inl e \<Rightarrow> Inl e
      | Inr ys \<Rightarrow> Inr (map (\<lambda>y. np_round y 5) ys))"

definition measure_iip2 ::
  "real \<Rightarrow> real \<Rightarrow> int \<Rightarrow> real \<Rightarrow> real \<Rightarrow> real \<Rightarrow> world
     \<Rightarrow> (py_error + real list \<times> fval list) \<times> world" where
  "measure_iip2 start_voltage stop_voltage num freq1 freq2 fs w =
     (case input_levels start_voltage stop_voltage num of
        Inl e \<Rightarrow> (Inl e, w)
      | Inr input_voltages \<Rightarrow>
         (case sweep_loop freq1 freq2 fs input_voltages [] w of
            (Inl e, w1) \<Rightarrow> (Inl e, w1)
          | (Inr second_order_products, w1) \<Rightarrow>
             (let w2 = disable_output 1 w1 in
              if 1 < length second_order_products then
                (case calculate_intercept input_voltages second_order_products of
                   Inl e \<Rightarrow> (Inl e, w2)
                 | Inr second_order_intercept \<Rightarrow>
                     (Inr (input_voltages, second_order_products),
                      print_line (IIP2 second_order_intercept) w2))
              else (Inr (input_voltages, second_order_products), w2))))"

section \<open>Notions used in the statements\<close>

subsection \<open>The spectrum as the specification states it\<close>





subsection \<open>The spectrum as the code retains it\<close>

text \<open>
  Bin \<open>k\<close> of an \<open>N\<close>-point transform of a signal sampled at \<open>fs\<close> has frequency
  \<open>k * fs / N\<close>. The code retains the first \<open>N div 2\<close> bins, and divides a magnitude by
  that length. A bin is the nearest one to a target frequency when it is retained, no
  retained bin is closer, and every earlier retained bin is farther (of two bins equally
  near, the first).
\<close>

definition bin_frequency :: "nat \<Rightarrow> real \<Rightarrow> nat \<Rightarrow> real" where
  "bin_frequency N fs k = real k * fs / real N"

definition retained_length :: "real list \<Rightarrow> nat" where
  "retained_length w = length w div 2"

definition spectrum_magnitude :: "real list \<Rightarrow> nat \<Rightarrow> real" where
  "spectrum_magnitude w k = cmod (dft_bin w k) / real (retained_length w)"

definition nearest_bin :: "real list \<Rightarrow> real \<Rightarrow> real \<Rightarrow> nat \<Rightarrow> bool" where
  "nearest_bin w fs target k \<longleftrightarrow>
     k < retained_length w \<and>
     (\<forall>j<retained_length w.
        \<bar>bin_frequency (length w) fs k - target\<bar> \<le> \<bar>bin_frequency (length w) fs j - target\<bar>) \<and>
     (\<forall>j<k. \<bar>bin_frequency (length w) fs k - target\<bar> < \<bar>bin_frequency (length w) fs j - target\<bar>)"

subsection \<open>Ordinary least squares\<close>

text \<open>
  The sum of squared residuals of the line \<open>a * x + b\<close>, and what it is for \<open>(a, b)\<close> to
  minimise it. \<open>fit_slope\<close> and \<open>fit_offset\<close> name the solution of the normal equations,
  defined when the determinant \<open>fit_det\<close> is not zero.
\<close>

definition sq_residuals :: "real list \<Rightarrow> real list \<Rightarrow> real \<Rightarrow> real \<Rightarrow> real" where
  "sq_residuals xs ys a b = (\<Sum>(x, y)\<leftarrow>zip xs ys. (y - (a * x + b))\<^sup>2)"

definition least_squares :: "real list \<Rightarrow> real list \<Rightarrow> real \<Rightarrow> real \<Rightarrow> bool" where
  "least_squares xs ys a b \<longleftrightarrow> (\<forall>a' b'. sq_residuals xs ys a b \<le> sq_residuals xs ys a' b')"

definition sxx :: "real list \<Rightarrow> real" where "sxx xs = sum_list (map (\<lambda>x. x * x) xs)"
definition sxy :: "real list \<Rightarrow> real list \<Rightarrow> real" where
  "sxy xs ys = sum_list (map (\<lambda>(x, z). x * z) (zip xs ys))"
definition fit_det :: "real list \<Rightarrow> real" where
  "fit_det xs = real (length xs) * sxx xs - sum_list xs * sum_list xs"
definition fit_slope :: "real list \<Rightarrow> real list \<Rightarrow> real" where
  "fit_slope xs ys = (real (length xs) * sxy xs ys - sum_list xs * sum_list ys) / fit_det xs"
definition fit_offset :: "real list \<Rightarrow> real list \<Rightarrow> real" where
  "fit_offset xs ys = (sum_list ys - fit_slope xs ys * sum_list xs) / real (length xs)"

subsection \<open>The sweep\<close>

text \<open>
  Level \<open>i\<close> of \<open>n\<close> levels spaced linearly from \<open>start\<close> to \<open>stop\<close>, both ends included
  (one level alone is \<open>start\<close>).
\<close>

definition linear_level :: "real \<Rightarrow> real \<Rightarrow> nat \<Rightarrow> nat \<Rightarrow> real" where
  "linear_level start stop n i =
     (if n \<le> 1 then start else start + real i * (stop - start) / real (n - 1))"

text \<open>
  What one step of the sweep yields on a given reply of the oscilloscope: the capture
  fails (VisaIOError, ValueError) or the extractor runs on the samples, and may fail too.
  \<open>step_commands\<close> are the two commands a step writes to the signal generator.
\<close>

definition step_outcome :: "capture \<Rightarrow> real \<Rightarrow> real \<Rightarrow> real \<Rightarrow> py_error + fval" where
  "step_outcome c freq1 freq2 fs =
     (case c of
        Timeout \<Rightarrow> Inl VisaIOError
      | Garbled \<Rightarrow> Inl ValueError
      | Samples volts \<Rightarrow> calculate_second_order_product volts freq1 freq2 fs)"

definition step_commands :: "real \<Rightarrow> real \<Rightarrow> sg_cmd list" where
  "step_commands freq1 voltage = [Apply ''SIN'' freq1 voltage 0, OutpOn 1]"

text \<open>Both instruments idle, nothing written or printed yet, the replies as given.\<close>

definition idle_world :: "capture list \<Rightarrow> world" where
  "idle_world rs =
     \<lparr>sg_out1 = False, sg_out2 = False, sg_log = [], osc_log = [], replies = rs, printed = []\<rparr>"

section \<open>The spectral product extractor\<close>

subsection \<open>\<open>argmin\<close> returns the first minimum\<close>

lemma argmin1_bound: "argmin1 x ys \<le> length ys"
  by (induction ys arbitrary: x) (auto simp: Let_def)

lemma argmin1_least: "j \<le> length ys \<Longrightarrow> (x # ys) ! argmin1 x ys \<le> (x # ys) ! j"
proof (induction ys arbitrary: x j)
  case Nil
  then show ?case by simp
next
  case (Cons y ys)
  let ?m = "argmin1 y ys"
  show ?case
  proof (cases "x \<le> (y # ys) ! ?m")
    case True
    show ?thesis
    proof (cases j)
      case 0
      with True show ?thesis by (simp add: Let_def)
    next
      case (Suc i)
      with Cons.prems have "i \<le> length ys" by simp
      from Cons.IH [OF this] have "(y # ys) ! ?m \<le> (y # ys) ! i" .
      with True Suc show ?thesis by (simp add: Let_def)
    qed
  next
    case False
    show ?thesis
    proof (cases j)
      case 0
      with False show ?thesis by (simp add: Let_def)
    next
      case (Suc i)
      with Cons.prems have "i \<le> length ys" by simp
      from Cons.IH [OF this] have "(y # ys) ! ?m \<le> (y # ys) ! i" .
      with False Suc show ?thesis by (simp add: Let_def)
    qed
  qed
qed

lemma argmin1_first: "j < argmin1 x ys \<Longrightarrow> (x # ys) ! argmin1 x ys < (x # ys) ! j"
proof (induction ys arbitrary: x j)
  case Nil
  then show ?case by simp
next
  case (Cons y ys)
  let ?m = "argmin1 y ys"
  from Cons.prems have F: "\<not> x \<le> (y # ys) ! ?m"
    by (auto simp: Let_def split: if_splits)
  show ?case
  proof (cases j)
    case 0
    with F show ?thesis by (simp add: Let_def)
  next
    case (Suc i)
    with Cons.prems F have "i < ?m" by (simp add: Let_def)
    from Cons.IH [OF this] Suc F show ?thesis by (simp add: Let_def)
  qed
qed

lemma argmin_Inr:
  assumes "xs \<noteq> []"
  shows "\<exists>i. argmin xs = Inr i \<and> i < length xs \<and> (\<forall>j<length xs. xs ! i \<le> xs ! j)
           \<and> (\<forall>j<i. xs ! i < xs ! j)"
proof -
  from assms obtain x ys where xs: "xs = x # ys" by (cases xs) auto
  have "argmin1 x ys < length xs" using argmin1_bound [of x ys] xs by simp
  moreover have "\<forall>j<length xs. xs ! argmin1 x ys \<le> xs ! j"
    using argmin1_least [of _ ys x] xs by (simp add: less_Suc_eq_le)
  moreover have "\<forall>j<argmin1 x ys. xs ! argmin1 x ys < xs ! j"
    using argmin1_first [of _ x ys] xs by simp
  ultimately show ?thesis by (simp add: argmin_def xs)
qed

lemma fftfreq_nth:
  assumes "k < n div 2" "fs \<noteq> 0"
  shows "fftfreq n (1 / fs) ! k = real k * fs / real n"
proof -
  from assms have "k < n" "k \<le> (n - 1) div 2" by auto
  then show ?thesis by (simp add: fftfreq_def)
qed

lemma length_fft [simp]: "length (fft w) = length w"
  by (simp add: fft_def)

lemma length_fftfreq [simp]: "length (fftfreq n d) = n"
  by (simp add: fftfreq_def)

lemma nearest_by_argmin:
  assumes "2 \<le> length w" "fs \<noteq> 0"
  shows "\<exists>k. argmin (map (\<lambda>f. \<bar>f - t\<bar>) (take (length w div 2) (fftfreq (length w) (1 / fs)))) = Inr k
            \<and> nearest_bin w fs t k"
proof -
  let ?L = "length w div 2"
  let ?fr = "take ?L (fftfreq (length w) (1 / fs))"
  let ?ds = "map (\<lambda>f. \<bar>f - t\<bar>) ?fr"
  from assms have L: "0 < ?L" by simp
  have len: "length ?ds = ?L" by simp
  have nth: "?ds ! j = \<bar>bin_frequency (length w) fs j - t\<bar>" if "j < ?L" for j
    using that assms(2) by (simp add: fftfreq_nth bin_frequency_def)
  from L len have "?ds \<noteq> []" by (metis length_0_conv less_nat_zero_code)
  from argmin_Inr [OF this] obtain k where k: "argmin ?ds = Inr k" "k < length ?ds"
    "\<forall>j<length ?ds. ?ds ! k \<le> ?ds ! j" "\<forall>j<k. ?ds ! k < ?ds ! j" by blast
  from k(2) have kL: "k < ?L" by simp
  have "nearest_bin w fs t k"
    unfolding nearest_bin_def retained_length_def
  proof (intro conjI allI impI)
    show "k < ?L" by (rule kL)
  next
    fix j assume j: "j < ?L"
    with k(3) have "?ds ! k \<le> ?ds ! j" by simp
    with nth [OF kL] nth [OF j]
    show "\<bar>bin_frequency (length w) fs k - t\<bar> \<le> \<bar>bin_frequency (length w) fs j - t\<bar>" by simp
  next
    fix j assume j: "j < k"
    with kL have jL: "j < ?L" by simp
    from k(4) j have "?ds ! k < ?ds ! j" by simp
    with nth [OF kL] nth [OF jL]
    show "\<bar>bin_frequency (length w) fs k - t\<bar> < \<bar>bin_frequency (length w) fs j - t\<bar>" by simp
  qed
  with k(1) show ?thesis by blast
qed

lemma magnitude_nth:
  assumes "k < length w div 2"
  shows "map (\<lambda>z. cmod z / real (length (take (length w div 2) (fft w)))) (take (length w div 2) (fft w)) ! k
         = spectrum_magnitude w k"
proof -
  from assms have kw: "k < length w" and le: "length w div 2 \<le> length w" by simp_all
  have "length (take (length w div 2) (fft w)) = length w div 2"
    using le by simp
  moreover have "take (length w div 2) (fft w) ! k = dft_bin w k"
    using assms kw by (simp add: fft_def)
  ultimately show ?thesis
    using assms by (simp add: spectrum_magnitude_def retained_length_def)
qed

lemma extractor_value:
  assumes "2 \<le> length w" and "fs \<noteq> 0"
  shows "\<exists>ks kd. nearest_bin w fs (f1 + f2) ks \<and> nearest_bin w fs \<bar>f1 - f2\<bar> kd \<and>
           calculate_second_order_product w f1 f2 fs =
             Inr (ten_log10 (max ((spectrum_magnitude w ks)\<^sup>2) ((spectrum_magnitude w kd)\<^sup>2)))"
proof -
  from nearest_by_argmin [OF assms, of "f1 + f2"] obtain ks where
    ks: "argmin (map (\<lambda>f. \<bar>f - (f1 + f2)\<bar>) (take (length w div 2) (fftfreq (length w) (1 / fs)))) = Inr ks"
        "nearest_bin w fs (f1 + f2) ks" by blast
  from nearest_by_argmin [OF assms, of "\<bar>f1 - f2\<bar>"] obtain kd where
    kd: "argmin (map (\<lambda>f. \<bar>f - \<bar>f1 - f2\<bar>\<bar>) (take (length w div 2) (fftfreq (length w) (1 / fs)))) = Inr kd"
        "nearest_bin w fs \<bar>f1 - f2\<bar> kd" by blast
  from ks(2) have ksL: "ks < length w div 2" by (simp add: nearest_bin_def retained_length_def)
  from kd(2) have kdL: "kd < length w div 2" by (simp add: nearest_bin_def retained_length_def)
  from assms(1) have ne: "w \<noteq> []" by auto
  have "calculate_second_order_product w f1 f2 fs =
          Inr (ten_log10 (max ((spectrum_magnitude w ks)\<^sup>2) ((spectrum_magnitude w kd)\<^sup>2)))"
    unfolding calculate_second_order_product_def Let_def
    using ne assms(2) ks(1) kd(1) magnitude_nth [OF ksL] magnitude_nth [OF kdL]
    by simp
  with ks(2) kd(2) show ?thesis by blast
qed

text \<open>
  Claim C6. Swapping the two tones leaves the extracted power unchanged, for every
  waveform and sample rate (errors included): \<open>f1 + f2\<close> and \<open>|f1 - f2|\<close> do not change.
\<close>

theorem extractor_symmetric:
  "calculate_second_order_product w f1 f2 fs = calculate_second_order_product w f2 f1 fs"
  by (simp add: calculate_second_order_product_def add.commute abs_minus_commute)

theorem extractor_symmetric_witness:
  "calculate_second_order_product [1, 1] 1 2 4 = calculate_second_order_product [1, 1] 2 1 4"
  by (rule extractor_symmetric)

text \<open>
  Claim C10. A waveform of one sample has an empty retained half (its length, the divisor
  of the normalisation, is 0) and \<open>calculate_second_order_product\<close> raises: ValueError
  from \<open>argmin\<close> of an empty sequence (ZeroDivisionError from \<open>1/fs\<close> when \<open>fs = 0\<close>).
  From two samples on, with \<open>fs \<noteq> 0\<close>, it returns a value.
\<close>

theorem extractor_length_one:
  "(length w = 1 \<longrightarrow>
      take (length (fft w) div 2) (fft w) = [] \<and>
      length (take (length (fft w) div 2) (fft w)) = 0 \<and>
      (\<exists>e. calculate_second_order_product w f1 f2 fs = Inl e) \<and>
      (fs \<noteq> 0 \<longrightarrow> calculate_second_order_product w f1 f2 fs = Inl ValueError)) \<and>
   (2 \<le> length w \<and> fs \<noteq> 0 \<longrightarrow> (\<exists>p. calculate_second_order_product w f1 f2 fs = Inr p))"
proof (intro conjI impI)
  assume "2 \<le> length w \<and> fs \<noteq> 0"
  with extractor_value [of w fs f1 f2]
  show "\<exists>p. calculate_second_order_product w f1 f2 fs = Inr p" by blast
qed (auto simp: calculate_second_order_product_def argmin_def)

theorem extractor_length_one_witness:
  "length [3 :: real] = 1 \<and> (50000 :: real) \<noteq> 0 \<and>
   take (length (fft [3]) div 2) (fft [3]) = [] \<and>
   calculate_second_order_product [3] 1000000 1010000 50000 = Inl ValueError \<and>
   2 \<le> length [3, 3 :: real] \<and>
   (\<exists>p. calculate_second_order_product [3, 3] 1000000 1010000 50000 = Inr p)"
proof -
  have "take (length (fft [3]) div 2) (fft [3]) = [] \<and>
        calculate_second_order_product [3] 1000000 1010000 50000 = Inl ValueError"
    using extractor_length_one [of "[3]" 1000000 1010000 50000] by simp
  moreover have "\<exists>p. calculate_second_order_product [3, 3] 1000000 1010000 50000 = Inr p"
    using extractor_length_one [of "[3, 3]" 1000000 1010000 50000] by simp
  ultimately show ?thesis by simp
qed

subsection \<open>The retained bins and the non-negative-frequency bins\<close>










lemma tone_bin_0: "dft_bin [1, - (1 / 2), - (1 / 2)] 0 = 0"
  by (simp add: dft_bin_def upt_rec)













section \<open>The intercept estimator\<close>

lemma sq_residuals_expand:
  assumes "length xs = length ys"
  shows "sq_residuals xs ys a b =
           sxx ys - 2 * a * sxy xs ys - 2 * b * sum_list ys
           + a\<^sup>2 * sxx xs + 2 * a * b * sum_list xs + real (length xs) * b\<^sup>2"
  using assms
proof (induction xs ys rule: list_induct2)
  case Nil
  show ?case by (simp add: sq_residuals_def sxx_def sxy_def)
next
  case (Cons x xs y ys)
  then show ?case
    unfolding sq_residuals_def sxx_def sxy_def
    by (simp add: power2_eq_square algebra_simps)
qed

lemma sq_residuals_nonneg: "0 \<le> sq_residuals xs ys a b"
  unfolding sq_residuals_def by (rule sum_list_nonneg) auto

lemma sum_list_sq_zero:
  fixes f :: "'a \<Rightarrow> real"
  shows "(\<Sum>x\<leftarrow>xs. (f x)\<^sup>2) = 0 \<longleftrightarrow> (\<forall>x\<in>set xs. f x = 0)"
proof (induction xs)
  case Nil
  show ?case by simp
next
  case (Cons x xs)
  have "0 \<le> (\<Sum>x\<leftarrow>xs. (f x)\<^sup>2)" by (rule sum_list_nonneg) auto
  with Cons show ?case
    by (auto simp: add_nonneg_eq_0_iff)
qed

lemma fit_det_sq:
  assumes "xs \<noteq> []"
  shows "fit_det xs = real (length xs) * (\<Sum>x\<leftarrow>xs. (x - sum_list xs / real (length xs))\<^sup>2)"
proof -
  have gen: "(\<Sum>x\<leftarrow>xs. (x - m)\<^sup>2) = sxx xs - 2 * m * sum_list xs + real (length xs) * m\<^sup>2" for m
    unfolding sxx_def by (induction xs) (simp_all add: power2_eq_square algebra_simps)
  from assms have n: "real (length xs) \<noteq> 0" by simp
  show ?thesis
    unfolding gen fit_det_def using n by (simp add: power2_eq_square field_simps)
qed

lemma fit_det_pos:
  assumes "x \<in> set xs" "x' \<in> set xs" "x \<noteq> x'"
  shows "0 < fit_det xs"
proof -
  from assms have ne: "xs \<noteq> []" by auto
  let ?m = "sum_list xs / real (length xs)"
  let ?S = "(\<Sum>x\<leftarrow>xs. (x - ?m)\<^sup>2)"
  have "0 \<le> ?S" by (rule sum_list_nonneg) auto
  moreover have "?S \<noteq> 0"
  proof
    assume "?S = 0"
    then have "\<forall>x\<in>set xs. x - ?m = 0" by (simp only: sum_list_sq_zero)
    then have eqm: "z = ?m" if "z \<in> set xs" for z using that by simp
    from eqm [OF assms(1)] eqm [OF assms(2)] assms(3) show False by metis
  qed
  ultimately have "0 < ?S" by simp
  moreover from ne have "0 < real (length xs)" by simp
  ultimately show ?thesis unfolding fit_det_sq [OF ne] by simp
qed

lemma normal_equations:
  assumes "fit_det xs \<noteq> 0" "xs \<noteq> []"
  shows "fit_slope xs ys * sxx xs + fit_offset xs ys * sum_list xs = sxy xs ys"
    and "fit_slope xs ys * sum_list xs + real (length xs) * fit_offset xs ys = sum_list ys"
proof -
  from assms(2) have n: "real (length xs) \<noteq> 0" by simp
  show 2: "fit_slope xs ys * sum_list xs + real (length xs) * fit_offset xs ys = sum_list ys"
    unfolding fit_offset_def using n by simp
  have aD: "fit_slope xs ys * fit_det xs = real (length xs) * sxy xs ys - sum_list xs * sum_list ys"
    unfolding fit_slope_def using assms(1) by simp
  have "real (length xs) * (fit_slope xs ys * sxx xs + fit_offset xs ys * sum_list xs)
          = fit_slope xs ys * fit_det xs
            + sum_list xs * (fit_slope xs ys * sum_list xs + real (length xs) * fit_offset xs ys)"
    unfolding fit_det_def by (simp add: algebra_simps)
  also have "\<dots> = real (length xs) * sxy xs ys"
    unfolding aD 2 by simp
  finally have "real (length xs) * (fit_slope xs ys * sxx xs + fit_offset xs ys * sum_list xs)
               = real (length xs) * sxy xs ys" .
  with n show "fit_slope xs ys * sxx xs + fit_offset xs ys * sum_list xs = sxy xs ys" by simp
qed

lemma sq_residuals_shift:
  assumes len: "length xs = length ys" and det: "fit_det xs \<noteq> 0" and ne: "xs \<noteq> []"
  shows "sq_residuals xs ys a b =
           sq_residuals xs ys (fit_slope xs ys) (fit_offset xs ys)
           + (\<Sum>x\<leftarrow>xs. ((a - fit_slope xs ys) * x + (b - fit_offset xs ys))\<^sup>2)"
proof -
  let ?a = "fit_slope xs ys" and ?b = "fit_offset xs ys"
  have Q: "(\<Sum>x\<leftarrow>xs. (u * x + v)\<^sup>2) = u\<^sup>2 * sxx xs + 2 * u * v * sum_list xs + real (length xs) * v\<^sup>2" for u v
    unfolding sxx_def by (induction xs) (simp_all add: power2_eq_square algebra_simps)
  note ne1 = normal_equations(1) [OF det ne, of ys] and ne2 = normal_equations(2) [OF det ne, of ys]
  have "sq_residuals xs ys a b - sq_residuals xs ys ?a ?b
        = (a - ?a)\<^sup>2 * sxx xs + 2 * (a - ?a) * (b - ?b) * sum_list xs + real (length xs) * (b - ?b)\<^sup>2
          + 2 * (a - ?a) * (?a * sxx xs + ?b * sum_list xs - sxy xs ys)
          + 2 * (b - ?b) * (?a * sum_list xs + real (length xs) * ?b - sum_list ys)"
    unfolding sq_residuals_expand [OF len]
    by (simp add: power2_eq_square algebra_simps)
  also have "\<dots> = (a - ?a)\<^sup>2 * sxx xs + 2 * (a - ?a) * (b - ?b) * sum_list xs + real (length xs) * (b - ?b)\<^sup>2"
    unfolding ne1 ne2 by simp
  finally show ?thesis unfolding Q by simp
qed

lemma fit_is_least_squares:
  assumes "length xs = length ys" "fit_det xs \<noteq> 0" "xs \<noteq> []"
  shows "least_squares xs ys (fit_slope xs ys) (fit_offset xs ys)"
  unfolding least_squares_def
proof (intro allI)
  fix a' b'
  have "0 \<le> (\<Sum>x\<leftarrow>xs. ((a' - fit_slope xs ys) * x + (b' - fit_offset xs ys))\<^sup>2)"
    by (rule sum_list_nonneg) auto
  with sq_residuals_shift [OF assms, of a' b']
  show "sq_residuals xs ys (fit_slope xs ys) (fit_offset xs ys) \<le> sq_residuals xs ys a' b'" by simp
qed

lemma least_squares_unique:
  assumes len: "length xs = length ys" and x: "x \<in> set xs" "x' \<in> set xs" "x \<noteq> x'"
    and ls: "least_squares xs ys a b"
  shows "a = fit_slope xs ys \<and> b = fit_offset xs ys"
proof -
  from x have ne: "xs \<noteq> []" by auto
  from fit_det_pos [OF x] have det: "fit_det xs \<noteq> 0" by simp
  let ?u = "a - fit_slope xs ys" and ?v = "b - fit_offset xs ys"
  let ?Q = "(\<Sum>x\<leftarrow>xs. (?u * x + ?v)\<^sup>2)"
  from ls have "sq_residuals xs ys a b \<le> sq_residuals xs ys (fit_slope xs ys) (fit_offset xs ys)"
    by (simp add: least_squares_def)
  with sq_residuals_shift [OF len det ne, of a b] have "?Q \<le> 0" by simp
  moreover have "0 \<le> ?Q" by (rule sum_list_nonneg) auto
  ultimately have "?Q = 0" by simp
  then have all0: "\<forall>x\<in>set xs. ?u * x + ?v = 0" by (simp only: sum_list_sq_zero)
  with x have "?u * x + ?v = 0" "?u * x' + ?v = 0" by auto
  then have "?u * (x - x') = 0" by (simp add: algebra_simps)
  with x(3) have u: "?u = 0" by simp
  with \<open>?u * x + ?v = 0\<close> have "?v = 0" by simp
  with u show ?thesis by simp
qed

lemma polyfit1_finite:
  assumes "length xs = length ys" "fit_det xs \<noteq> 0" "xs \<noteq> []"
  shows "polyfit1 xs (map Fin ys) = Inr (Fin (fit_slope xs ys), Fin (fit_offset xs ys))"
proof -
  have fin: "list_all is_fin (map Fin ys)" by (induction ys) simp_all
  have unfin: "map the_fin (map Fin ys) = ys" by (induction ys) simp_all
  show ?thesis
    unfolding polyfit1_def Let_def
    using assms fin unfin
    by (simp add: fit_slope_def fit_offset_def fit_det_def sxx_def sxy_def)
qed

lemma calculate_intercept_finite:
  assumes "length xs = length ys" "fit_det xs \<noteq> 0" "xs \<noteq> []"
  shows "calculate_intercept xs (map Fin ys) = Inr (np_divide (- fit_offset xs ys) (fit_slope xs ys))"
  unfolding calculate_intercept_def polyfit1_finite [OF assms] by simp

lemma intercept_of_least_squares:
  assumes len: "length levels = length powers"
    and x: "x \<in> set levels" "x' \<in> set levels" "x \<noteq> x'"
    and ls: "least_squares levels powers a b"
  shows "calculate_intercept levels (map Fin powers) = Inr (np_divide (- b) a)"
proof -
  from x have ne: "levels \<noteq> []" by auto
  from fit_det_pos [OF x] have det: "fit_det levels \<noteq> 0" by simp
  from least_squares_unique [OF len x ls]
  have "a = fit_slope levels powers" "b = fit_offset levels powers" by simp_all
  with calculate_intercept_finite [OF len det ne] show ?thesis by simp
qed

lemma least_squares_exact:
  assumes "sq_residuals xs ys a b = 0"
  shows "least_squares xs ys a b"
  unfolding least_squares_def using assms sq_residuals_nonneg by simp

lemma sq_residuals_constant: "sq_residuals xs (replicate (length xs) c) 0 c = 0"
  unfolding sq_residuals_def by (induction xs) simp_all

text \<open>
  Claim C5. For equal-length levels and powers, at least two of them, the levels not all
  equal (so that the least-squares line is determined): a least-squares line exists, and
  for every least-squares line \<open>a * x + b\<close> of non-zero slope \<open>calculate_intercept\<close>
  returns \<open>- b / a\<close>. For the levels 1, 2, 3, 4 and the powers \<open>3 * level - 12\<close> it
  returns 4.
\<close>

theorem intercept_is_least_squares_root:
  assumes "length levels = length powers" and "2 \<le> length levels"
    and "x \<in> set levels" and "x' \<in> set levels" and "x \<noteq> x'"
  shows "(\<exists>a b. least_squares levels powers a b) \<and>
         (\<forall>a b. least_squares levels powers a b \<and> a \<noteq> 0 \<longrightarrow>
            calculate_intercept levels (map Fin powers) = Inr (Fin (- b / a))) \<and>
         calculate_intercept [1, 2, 3, 4] (map (\<lambda>l. Fin (3 * l - 12)) [1, 2, 3, 4]) = Inr (Fin 4)"
proof (intro conjI allI impI)
  from assms(3) have ne: "levels \<noteq> []" by auto
  from fit_det_pos [OF assms(3-5)] have det: "fit_det levels \<noteq> 0" by simp
  from fit_is_least_squares [OF assms(1) det ne]
  show "\<exists>a b. least_squares levels powers a b" by blast
next
  fix a b assume "least_squares levels powers a b \<and> a \<noteq> 0"
  with intercept_of_least_squares [OF assms(1) assms(3-5), of a b]
  show "calculate_intercept levels (map Fin powers) = Inr (Fin (- b / a))"
    by (simp add: np_divide_def)
next
  show "calculate_intercept [1, 2, 3, 4] (map (\<lambda>l. Fin (3 * l - 12)) [1, 2, 3, 4]) = Inr (Fin 4)"
    by (simp add: calculate_intercept_def polyfit1_def np_divide_def)
qed

theorem intercept_is_least_squares_root_witness:
  "length [1, 2, 3, 4 :: real] = length [- 9, - 6, - 3, 0 :: real] \<and>
   2 \<le> length [1, 2, 3, 4 :: real] \<and>
   (1 :: real) \<in> set [1, 2, 3, 4] \<and> (2 :: real) \<in> set [1, 2, 3, 4] \<and> (1 :: real) \<noteq> 2 \<and>
   least_squares [1, 2, 3, 4] [- 9, - 6, - 3, 0] 3 (- 12) \<and>
   calculate_intercept [1, 2, 3, 4] (map Fin [- 9, - 6, - 3, 0]) = Inr (Fin (- (- 12) / 3))"
proof -
  have ls: "least_squares [1, 2, 3, 4] [- 9, - 6, - 3, 0] 3 (- 12)"
    by (rule least_squares_exact) (simp add: sq_residuals_def)
  have "\<forall>a b. least_squares [1, 2, 3, 4] [- 9, - 6, - 3, 0] a b \<and> a \<noteq> 0 \<longrightarrow>
           calculate_intercept [1, 2, 3, 4] (map Fin [- 9, - 6, - 3, 0]) = Inr (Fin (- b / a))"
    using intercept_is_least_squares_root [of "[1, 2, 3, 4]" "[- 9, - 6, - 3, 0]" 1 2]
    by (simp del: list.map)
  then have "least_squares [1, 2, 3, 4] [- 9, - 6, - 3, 0] 3 (- 12) \<and> (3 :: real) \<noteq> 0 \<longrightarrow>
           calculate_intercept [1, 2, 3, 4] (map Fin [- 9, - 6, - 3, 0]) = Inr (Fin (- (- 12) / 3))"
    by blast
  with ls have "calculate_intercept [1, 2, 3, 4] (map Fin [- 9, - 6, - 3, 0]) = Inr (Fin (- (- 12) / 3))"
    by simp
  with ls show ?thesis by simp
qed

lemma calculate_intercept_with_polyfit1:
  "calculate_intercept_with polyfit1 xs ys = calculate_intercept xs ys"
  by (simp add: calculate_intercept_with_def calculate_intercept_def)

lemma map_Fin_zero: "\<forall>p\<in>set powers. p = 0 \<Longrightarrow> powers = replicate (length powers) (0 :: real)"
  by (induction powers) simp_all

text \<open>
  Claim C3, as stated, at the levels 1, 2 and the powers 0, 0, constant across the levels:
  the least-squares slope is zero (the fit is exact in float64 too: both coefficients are
  zero), and \<open>calculate_intercept\<close> returns NaN, the quotient \<open>-0 / 0\<close>; it reports no
  error.
\<close>

theorem intercept_zero_powers_counterexample:
  "length [1, 2 :: real] = length [0, 0 :: real] \<and> 2 \<le> length [1, 2 :: real] \<and>
   least_squares [1, 2] [0, 0] 0 0 \<and>
   calculate_intercept [1, 2] (map Fin [0, 0]) = Inr NaN"
proof -
  have "least_squares [1, 2] [0, 0] 0 0"
    by (rule least_squares_exact) (simp add: sq_residuals_def)
  moreover have "calculate_intercept [1, 2] (map Fin [0, 0]) = Inr NaN"
    by (simp add: calculate_intercept_def polyfit1_def np_divide_def)
  ultimately show ?thesis by simp
qed

text \<open>
  Claim C3, amended. \<open>calculate_intercept\<close> has no degenerate-fit check and no tolerance,
  and raises nothing of its own. Whatever \<open>np.polyfit\<close> does: if it raises, that exception
  is what \<open>calculate_intercept\<close> raises; if it returns the slope \<open>a\<close> and the offset \<open>b\<close>,
  \<open>calculate_intercept\<close> returns the float quotient \<open>- b / a\<close> (for \<open>a \<noteq> 0\<close> idealised as
  the exact quotient), also for a slope as close to zero as one likes, and for a slope
  that is exactly zero it returns NaN (\<open>b = 0\<close>) or an infinity. In particular, for powers that are zero at every level (equal lengths, at
  least two levels, not all equal) it returns NaN.
\<close>

theorem intercept_no_degenerate_check:
  "(\<forall>e. polyfit levels powers = Inl e \<longrightarrow>
        calculate_intercept_with polyfit levels powers = Inl e) \<and>
   (\<forall>a b. polyfit levels powers = Inr (Fin a, Fin b) \<longrightarrow>
        calculate_intercept_with polyfit levels powers =
          Inr (if a \<noteq> 0 then Fin (- b / a) else if b = 0 then NaN else Infty)) \<and>
   (\<forall>zs. powers = map Fin zs \<and> length levels = length zs \<and> 2 \<le> length levels \<and>
         (\<exists>x\<in>set levels. \<exists>x'\<in>set levels. x \<noteq> x') \<and> (\<forall>z\<in>set zs. z = 0) \<longrightarrow>
        calculate_intercept_with polyfit1 levels powers = Inr NaN)"
proof (intro conjI allI impI)
  fix e assume "polyfit levels powers = Inl e"
  then show "calculate_intercept_with polyfit levels powers = Inl e"
    by (simp add: calculate_intercept_with_def)
next
  fix a b assume "polyfit levels powers = Inr (Fin a, Fin b)"
  then show "calculate_intercept_with polyfit levels powers =
          Inr (if a \<noteq> 0 then Fin (- b / a) else if b = 0 then NaN else Infty)"
    by (simp add: calculate_intercept_with_def np_divide_def)
next
  fix zs
  assume h: "powers = map Fin zs \<and> length levels = length zs \<and> 2 \<le> length levels \<and>
         (\<exists>x\<in>set levels. \<exists>x'\<in>set levels. x \<noteq> x') \<and> (\<forall>z\<in>set zs. z = 0)"
  then obtain x x' where x: "x \<in> set levels" "x' \<in> set levels" "x \<noteq> x'" by blast
  from h have len: "length levels = length zs" by simp
  from h have "zs = replicate (length zs) 0" by (intro map_Fin_zero) simp
  with len have zs: "zs = replicate (length levels) 0" by simp
  have "least_squares levels zs 0 0"
    by (subst zs) (rule least_squares_exact, rule sq_residuals_constant)
  from intercept_of_least_squares [OF len x this] h
  show "calculate_intercept_with polyfit1 levels powers = Inr NaN"
    by (simp add: calculate_intercept_with_polyfit1 np_divide_def)
qed

theorem intercept_no_degenerate_check_witness:
  "polyfit1 [1, 2] [Fin 0, Fin 0] = Inr (Fin 0, Fin 0) \<and>
   calculate_intercept_with polyfit1 [1, 2] [Fin 0, Fin 0] = Inr NaN \<and>
   calculate_intercept_with (\<lambda>xs ys. Inr (Fin (1 / 10 ^ 15), Fin 5)) [1, 2] [Fin 5, Fin 5]
     = Inr (Fin (- 5 / (1 / 10 ^ 15))) \<and>
   calculate_intercept_with (\<lambda>xs ys. Inl LinAlgError) [1, 2] [Fin 5, Fin 5] = Inl LinAlgError"
proof -
  have p: "polyfit1 [1, 2] [Fin 0, Fin 0] = Inr (Fin 0, Fin 0)"
    by (simp add: polyfit1_def)
  from intercept_no_degenerate_check [of polyfit1 "[1, 2]" "[Fin 0, Fin 0]"] p
  have 1: "calculate_intercept_with polyfit1 [1, 2] [Fin 0, Fin 0] = Inr NaN" by simp
  let ?pf = "\<lambda>(xs :: real list) (ys :: fval list). (Inr (Fin (1 / 10 ^ 15), Fin 5) :: py_error + fval \<times> fval)"
  from intercept_no_degenerate_check [of ?pf "[1, 2]" "[Fin 5, Fin 5]"]
  have "\<forall>a b. ?pf [1, 2] [Fin 5, Fin 5] = Inr (Fin a, Fin b) \<longrightarrow>
          calculate_intercept_with ?pf [1, 2] [Fin 5, Fin 5] =
            Inr (if a \<noteq> 0 then Fin (- b / a) else if b = 0 then NaN else Infty)"
    by (rule conjunct1 [OF conjunct2])
  then have "?pf [1, 2] [Fin 5, Fin 5] = Inr (Fin (1 / 10 ^ 15), Fin 5) \<longrightarrow>
          calculate_intercept_with ?pf [1, 2] [Fin 5, Fin 5] =
            Inr (if (1 / 10 ^ 15 :: real) \<noteq> 0 then Fin (- 5 / (1 / 10 ^ 15)) else if (5 :: real) = 0 then NaN else Infty)"
    by blast
  then have 2: "calculate_intercept_with (\<lambda>xs ys. Inr (Fin (1 / 10 ^ 15), Fin 5)) [1, 2] [Fin 5, Fin 5]
     = Inr (Fin (- 5 / (1 / 10 ^ 15)))" by simp
  from intercept_no_degenerate_check [of "\<lambda>xs ys. Inl LinAlgError" "[1, 2]" "[Fin 5, Fin 5]"]
  have 3: "calculate_intercept_with (\<lambda>xs ys. Inl LinAlgError) [1, 2] [Fin 5, Fin 5] = Inl LinAlgError"
    by simp
  from p 1 2 3 show ?thesis by simp
qed

section \<open>The sweep levels\<close>









lemma linspace_levels:
  assumes "0 \<le> num"
  shows "linspace start stop num = Inr (map (linear_level start stop (nat num)) [0..<nat num])"
proof -
  let ?n = "nat num"
  consider "?n = 0" | "?n = 1" | "2 \<le> ?n" by linarith
  then show ?thesis
  proof cases
    case 1
    with assms show ?thesis by (simp add: linspace_def)
  next
    case 2
    with assms show ?thesis by (simp add: linspace_def linear_level_def)
  next
    case 3
    then have dv: "0 < real ?n - 1" by simp
    define y2 where "y2 = map (\<lambda>i. real i * ((stop - start) / (real ?n - 1)) + start) [0..<?n]"
    have y2len: "length y2 = ?n" by (simp add: y2_def)
    have y2ne: "y2 \<noteq> []" using 3 y2len by auto
    have "last y2 = y2 ! (?n - 1)" using y2ne y2len by (simp add: last_conv_nth)
    also have "\<dots> = real (?n - 1) * ((stop - start) / (real ?n - 1)) + start"
      using 3 by (simp add: y2_def)
    also have "\<dots> = stop" using 3 dv by (simp add: of_nat_diff)
    finally have "butlast y2 @ [stop] = y2" using y2ne by (metis append_butlast_last_id)
    moreover have "y2 = map (linear_level start stop ?n) [0..<?n]"
      using 3 by (auto simp: y2_def linear_level_def of_nat_diff algebra_simps)
    moreover have "linspace start stop num = Inr (butlast y2 @ [stop])"
    proof (cases "(stop - start) / (real ?n - 1) = 0")
      case True
      with dv have "stop - start = 0" by simp
      with 3 assms True show ?thesis
        unfolding linspace_def Let_def y2_def by (simp add: comp_def)
    next
      case False
      with 3 assms dv show ?thesis
        unfolding linspace_def Let_def y2_def by (simp add: comp_def)
    qed
    ultimately show ?thesis by simp
  qed
qed



lemma input_levels_eq:
  assumes "0 \<le> num"
  shows "input_levels start stop num =
           Inr (map (\<lambda>i. np_round (linear_level start stop (nat num) i) 5) [0..<nat num])"
  unfolding input_levels_def linspace_levels [OF assms] by (simp add: comp_def)

section \<open>The sweep controller\<close>

subsection \<open>One step, and the loop\<close>

lemmas io_defs =
  enable_output_def disable_output_def set_waveform_def sg_write_def set_oscilloscope_def
  set_channel_scale_def osc_write_def print_line_def get_waveform_data_def

lemma sweep_step_source:
  "sg_out1 (snd (sweep_step f1 f2 fs v w)) \<and>
   sg_log (snd (sweep_step f1 f2 fs v w)) = sg_log w @ step_commands f1 v"
  unfolding sweep_step_def io_defs step_commands_def Let_def
  by (simp split: list.splits capture.splits sum.splits prod.splits)

lemma sweep_step_printed:
  "sweep_step f1 f2 fs v w = (Inr p, w') \<Longrightarrow> printed w' = printed w @ [Level v]"
  unfolding sweep_step_def io_defs Let_def
  by (auto split: list.splits capture.splits sum.splits prod.splits if_splits)

lemma sweep_step_reply:
  assumes "f1 \<noteq> 0" and "replies w = c # rs"
  shows "\<exists>w'. sweep_step f1 f2 fs v w = (step_outcome c f1 f2 fs, w') \<and> replies w' = rs \<and>
           printed w' = printed w @ [Level v]"
  using assms unfolding sweep_step_def io_defs step_outcome_def Let_def
  by (cases c) (simp_all split: sum.splits)

lemma step_commands_no_off: "OutpOff 1 \<notin> set (step_commands f1 v)"
  by (simp add: step_commands_def)

lemma sweep_loop_source:
  "sweep_loop f1 f2 fs vs acc w = (r, w') \<Longrightarrow>
     \<exists>cs. sg_log w' = sg_log w @ cs \<and> OutpOff 1 \<notin> set cs \<and>
          (vs \<noteq> [] \<longrightarrow> sg_out1 w' \<and> (\<exists>cs'. cs = step_commands f1 (hd vs) @ cs'))"
proof (induction vs arbitrary: acc w)
  case Nil
  then show ?case by simp
next
  case (Cons v vs)
  obtain r1 w1 where s: "sweep_step f1 f2 fs v w = (r1, w1)" by (cases "sweep_step f1 f2 fs v w")
  from sweep_step_source [of f1 f2 fs v w] s
  have w1: "sg_out1 w1" "sg_log w1 = sg_log w @ step_commands f1 v" by simp_all
  show ?case
  proof (cases r1)
    case (Inl e)
    with Cons.prems s have "w' = w1" by simp
    with w1 step_commands_no_off show ?thesis by auto
  next
    case (Inr p)
    with Cons.prems s have l: "sweep_loop f1 f2 fs vs (acc @ [p]) w1 = (r, w')" by simp
    from Cons.IH [OF l] obtain cs where
      cs: "sg_log w' = sg_log w1 @ cs" "OutpOff 1 \<notin> set cs" "vs \<noteq> [] \<longrightarrow> sg_out1 w'" by blast
    have out: "sg_out1 w'"
    proof (cases vs)
      case Nil
      with l w1 show ?thesis by simp
    next
      case Cons
      with cs(3) show ?thesis by simp
    qed
    from cs(1) w1(2) have "sg_log w' = sg_log w @ (step_commands f1 v @ cs)" by simp
    moreover from cs(2) step_commands_no_off have "OutpOff 1 \<notin> set (step_commands f1 v @ cs)"
      by simp
    ultimately show ?thesis using out by auto
  qed
qed

lemma sweep_loop_completed:
  "sweep_loop f1 f2 fs vs acc w = (Inr ps, w') \<Longrightarrow>
     length ps = length acc + length vs \<and> printed w' = printed w @ map Level vs"
proof (induction vs arbitrary: acc w)
  case Nil
  then show ?case by simp
next
  case (Cons v vs)
  obtain r1 w1 where s: "sweep_step f1 f2 fs v w = (r1, w1)" by (cases "sweep_step f1 f2 fs v w")
  show ?case
  proof (cases r1)
    case (Inl e)
    with Cons.prems s show ?thesis by simp
  next
    case (Inr p)
    with Cons.prems s have l: "sweep_loop f1 f2 fs vs (acc @ [p]) w1 = (Inr ps, w')" by simp
    from sweep_step_printed s Inr have "printed w1 = printed w @ [Level v]" by simp
    with Cons.IH [OF l] show ?thesis by simp
  qed
qed

lemma sweep_loop_fails_at:
  assumes "f1 \<noteq> 0"
  shows "k < length vs \<Longrightarrow> k < length (replies w) \<Longrightarrow>
     \<forall>j<k. \<exists>p. step_outcome (replies w ! j) f1 f2 fs = Inr p \<Longrightarrow>
     step_outcome (replies w ! k) f1 f2 fs = Inl e \<Longrightarrow>
     \<exists>w'. sweep_loop f1 f2 fs vs acc w = (Inl e, w') \<and>
          replies w' = drop (Suc k) (replies w) \<and>
          printed w' = printed w @ map Level (take (Suc k) vs)"
proof (induction vs arbitrary: k acc w)
  case Nil
  then show ?case by simp
next
  case (Cons v vs)
  from Cons.prems(2) obtain c rs where rw: "replies w = c # rs" by (cases "replies w") auto
  from sweep_step_reply [OF assms rw, of f2 fs v] obtain w1 where
    s: "sweep_step f1 f2 fs v w = (step_outcome c f1 f2 fs, w1)" and
    w1: "replies w1 = rs" "printed w1 = printed w @ [Level v]" by blast
  show ?case
  proof (cases k)
    case 0
    with Cons.prems(4) rw have "step_outcome c f1 f2 fs = Inl e" by simp
    with s w1 rw 0 show ?thesis by simp
  next
    case (Suc i)
    from Cons.prems(3) Suc rw obtain p where p: "step_outcome c f1 f2 fs = Inr p" by force
    from Cons.prems(1) Suc have 1: "i < length vs" by simp
    from Cons.prems(2) Suc rw w1 have 2: "i < length (replies w1)" by simp
    from Cons.prems(3) Suc rw w1
    have 3: "\<forall>j<i. \<exists>p. step_outcome (replies w1 ! j) f1 f2 fs = Inr p" by force
    from Cons.prems(4) Suc rw w1 have 4: "step_outcome (replies w1 ! i) f1 f2 fs = Inl e" by simp
    from Cons.IH [OF 1 2 3 4, of "acc @ [p]"] obtain w' where
      "sweep_loop f1 f2 fs vs (acc @ [p]) w1 = (Inl e, w')"
      "replies w' = drop (Suc i) (replies w1)"
      "printed w' = printed w1 @ map Level (take (Suc i) vs)" by blast
    with s p w1 rw Suc show ?thesis by simp
  qed
qed

lemma measure_iip2_levels:
  "measure_iip2 start stop num f1 f2 fs w = (Inr (lv, ps), w') \<Longrightarrow> input_levels start stop num = Inr lv"
  unfolding measure_iip2_def Let_def
  by (auto split: sum.splits prod.splits if_splits)

lemma measure_iip2_completed:
  assumes lv: "input_levels start stop num = Inr lv"
    and loop: "sweep_loop f1 f2 fs lv [] w = (Inr ps, w1)"
  shows "measure_iip2 start stop num f1 f2 fs w =
           (if 1 < length ps then
              (case calculate_intercept lv ps of
                 Inl e \<Rightarrow> (Inl e, disable_output 1 w1)
               | Inr ic \<Rightarrow> (Inr (lv, ps), print_line (IIP2 ic) (disable_output 1 w1)))
            else (Inr (lv, ps), disable_output 1 w1))"
  using lv loop by (simp add: measure_iip2_def Let_def del: One_nat_def)

lemma measure_iip2_aborted:
  assumes lv: "input_levels start stop num = Inr lv"
    and loop: "sweep_loop f1 f2 fs lv [] w = (Inl e, w1)"
  shows "measure_iip2 start stop num f1 f2 fs w = (Inl e, w1)"
  using lv loop by (simp add: measure_iip2_def Let_def)

lemma disable_output_source:
  "\<not> sg_out1 (disable_output 1 w) \<and> sg_log (disable_output 1 w) = sg_log w @ [OutpOff 1] \<and>
   printed (disable_output 1 w) = printed w"
  by (simp add: disable_output_def sg_write_def)

lemma print_line_source:
  "sg_out1 (print_line l w) = sg_out1 w \<and> sg_log (print_line l w) = sg_log w \<and>
   printed (print_line l w) = printed w @ [l]"
  by (simp add: print_line_def)

lemma input_levels_hd:
  assumes "1 \<le> num"
  shows "\<exists>vs. input_levels start stop num = Inr (np_round start 5 # vs)"
proof -
  from assms have n: "0 \<le> num" "0 < nat num" by simp_all
  then have "[0..<nat num] = 0 # [1..<nat num]" by (simp add: upt_rec)
  with input_levels_eq [OF n(1), of start stop] show ?thesis
    by (simp add: linear_level_def)
qed

subsection \<open>Evaluation of concrete sweeps\<close>

lemmas sweep_defs =
  measure_iip2_def input_levels_def linspace_def np_round_def rint_def sweep_step_def io_defs
  calculate_second_order_product_def fft_def fftfreq_def dft_bin_def argmin_def ten_log10_def
  calculate_intercept_def polyfit1_def np_divide_def idle_world_def

lemma log_10_100: "log 10 100 = 2"
proof -
  have "log 10 (10 ^ 2) = 2" by (simp only: log_pow_cancel)
  then show ?thesis by simp
qed

lemma levels_1_2_2: "input_levels 1 2 2 = Inr [1, 2]"
  by (simp add: sweep_defs upt_rec)

lemma levels_1_3_3: "input_levels 1 3 3 = Inr [1, 2, 3]"
  by (simp add: sweep_defs upt_rec)

subsection \<open>Output state on exit\<close>

text \<open>
  Claim C1, as stated, at a sweep of two steps whose second capture times out: the
  exception leaves \<open>measure_iip2\<close>, the output of the signal generator is still on, and
  the commands it received end with \<open>OUTP1 ON\<close>; \<open>OUTP1 OFF\<close> was never written.
\<close>

theorem output_left_on_counterexample:
  "fst (measure_iip2 1 2 2 1 2 4 (idle_world [Samples [1 / 2, 1 / 2], Timeout])) = Inl VisaIOError \<and>
   sg_out1 (snd (measure_iip2 1 2 2 1 2 4 (idle_world [Samples [1 / 2, 1 / 2], Timeout]))) \<and>
   sg_log (snd (measure_iip2 1 2 2 1 2 4 (idle_world [Samples [1 / 2, 1 / 2], Timeout])))
     = [Apply ''SIN'' 1 1 0, OutpOn 1, Apply ''SIN'' 1 2 0, OutpOn 1]"
  by (simp add: sweep_defs upt_rec)

text \<open>
  Claim C1, amended. \<open>measure_iip2\<close> disables the output after the loop and nowhere else.
  When every step of the sweep completes, \<open>OUTP1 OFF\<close> is the last command the signal
  generator receives and its output is off when \<open>measure_iip2\<close> exits (by returning, or
  by an exception of the intercept computation that follows). When a step raises, the
  exception leaves \<open>measure_iip2\<close> at once: no \<open>OUTP1 OFF\<close> is written and the output is
  left on.
\<close>

theorem output_disabled_after_completed_sweep:
  assumes "input_levels start stop num = Inr lv"
  shows "(\<forall>ps w1. sweep_loop f1 f2 fs lv [] w = (Inr ps, w1) \<longrightarrow>
            \<not> sg_out1 (snd (measure_iip2 start stop num f1 f2 fs w)) \<and>
            sg_log (snd (measure_iip2 start stop num f1 f2 fs w)) = sg_log w1 @ [OutpOff 1]) \<and>
         (\<forall>e w1. sweep_loop f1 f2 fs lv [] w = (Inl e, w1) \<longrightarrow>
            measure_iip2 start stop num f1 f2 fs w = (Inl e, w1) \<and> sg_out1 w1 \<and>
            (\<exists>cs. sg_log w1 = sg_log w @ cs \<and> OutpOff 1 \<notin> set cs))"
proof (intro conjI allI impI)
  fix ps w1 assume loop: "sweep_loop f1 f2 fs lv [] w = (Inr ps, w1)"
  note m = measure_iip2_completed [OF assms loop]
  show "\<not> sg_out1 (snd (measure_iip2 start stop num f1 f2 fs w))"
    unfolding m by (simp add: disable_output_source print_line_source del: One_nat_def split: sum.splits)
  show "sg_log (snd (measure_iip2 start stop num f1 f2 fs w)) = sg_log w1 @ [OutpOff 1]"
    unfolding m by (simp add: disable_output_source print_line_source del: One_nat_def split: sum.splits)
next
  fix e w1 assume loop: "sweep_loop f1 f2 fs lv [] w = (Inl e, w1)"
  show "measure_iip2 start stop num f1 f2 fs w = (Inl e, w1)"
    by (rule measure_iip2_aborted [OF assms loop])
  from loop have ne: "lv \<noteq> []" by (cases lv) auto
  from sweep_loop_source [OF loop] ne show "sg_out1 w1" by blast
  from sweep_loop_source [OF loop] show "\<exists>cs. sg_log w1 = sg_log w @ cs \<and> OutpOff 1 \<notin> set cs"
    by blast
qed

theorem output_disabled_after_completed_sweep_witness:
  "input_levels 1 2 2 = Inr [1, 2] \<and>
   fst (sweep_loop 1 2 4 [1, 2] [] (idle_world [Samples [1 / 2, 1 / 2], Samples [5, 5]]))
     = Inr [Fin 0, Fin 20] \<and>
   \<not> sg_out1 (snd (measure_iip2 1 2 2 1 2 4 (idle_world [Samples [1 / 2, 1 / 2], Samples [5, 5]]))) \<and>
   fst (sweep_loop 1 2 4 [1, 2] [] (idle_world [Samples [1 / 2, 1 / 2], Garbled])) = Inl ValueError \<and>
   fst (measure_iip2 1 2 2 1 2 4 (idle_world [Samples [1 / 2, 1 / 2], Garbled])) = Inl ValueError \<and>
   sg_out1 (snd (measure_iip2 1 2 2 1 2 4 (idle_world [Samples [1 / 2, 1 / 2], Garbled])))"
proof -
  let ?good = "idle_world [Samples [1 / 2, 1 / 2], Samples [5, 5]]"
  let ?bad = "idle_world [Samples [1 / 2, 1 / 2], Garbled]"
  have g: "fst (sweep_loop 1 2 4 [1, 2] [] ?good) = Inr [Fin 0, Fin 20]"
    by (simp add: sweep_defs log_10_100)
  have b: "fst (sweep_loop 1 2 4 [1, 2] [] ?bad) = Inl ValueError"
    by (simp add: sweep_defs)
  from g have g': "sweep_loop 1 2 4 [1, 2] [] ?good = (Inr [Fin 0, Fin 20], snd (sweep_loop 1 2 4 [1, 2] [] ?good))"
    by (metis prod.collapse)
  from b have b': "sweep_loop 1 2 4 [1, 2] [] ?bad = (Inl ValueError, snd (sweep_loop 1 2 4 [1, 2] [] ?bad))"
    by (metis prod.collapse)
  from output_disabled_after_completed_sweep [OF levels_1_2_2, of 1 2 4 ?good] g'
  have 1: "\<not> sg_out1 (snd (measure_iip2 1 2 2 1 2 4 ?good))" by blast
  from output_disabled_after_completed_sweep [OF levels_1_2_2, of 1 2 4 ?bad] b'
  have 2: "measure_iip2 1 2 2 1 2 4 ?bad = (Inl ValueError, snd (sweep_loop 1 2 4 [1, 2] [] ?bad)) \<and>
           sg_out1 (snd (sweep_loop 1 2 4 [1, 2] [] ?bad))" by blast
  from levels_1_2_2 g b 1 2 show ?thesis by simp
qed

subsection \<open>A failing step\<close>

text \<open>
  Claim C2, as stated, at a sweep of three steps whose second capture times out:
  \<open>measure_iip2\<close> returns no sequence, it raises VisaIOError, and the third reply is never
  asked for.
\<close>

theorem failing_step_counterexample:
  "fst (measure_iip2 1 3 3 1 2 4 (idle_world [Samples [1 / 2, 1 / 2], Timeout, Samples [5, 5]]))
     = Inl VisaIOError \<and>
   replies (snd (measure_iip2 1 3 3 1 2 4 (idle_world [Samples [1 / 2, 1 / 2], Timeout, Samples [5, 5]])))
     = [Samples [5, 5]]"
  by (simp add: sweep_defs upt_rec)

text \<open>
  Claim C2, amended. If the steps before step \<open>k\<close> succeed and the capture or the
  extraction of step \<open>k\<close> fails with an exception \<open>e\<close>, then \<open>measure_iip2\<close> aborts with
  \<open>e\<close>: it returns no sequence, the steps after \<open>k\<close> are not executed (their replies are
  not consumed, their levels not printed), no intercept is computed, and the output is
  left on.
\<close>

theorem failing_step_aborts_sweep:
  assumes "input_levels start stop num = Inr lv" and "f1 \<noteq> 0"
    and "k < length lv" and "k < length (replies w)"
    and "\<forall>j<k. \<exists>p. step_outcome (replies w ! j) f1 f2 fs = Inr p"
    and "step_outcome (replies w ! k) f1 f2 fs = Inl e"
  shows "\<exists>w'. measure_iip2 start stop num f1 f2 fs w = (Inl e, w') \<and>
           replies w' = drop (Suc k) (replies w) \<and>
           printed w' = printed w @ map Level (take (Suc k) lv) \<and>
           sg_out1 w'"
proof -
  from sweep_loop_fails_at [OF assms(2) assms(3-6), of "[]"] obtain w' where
    loop: "sweep_loop f1 f2 fs lv [] w = (Inl e, w')" and
    w': "replies w' = drop (Suc k) (replies w)" "printed w' = printed w @ map Level (take (Suc k) lv)"
    by blast
  from assms(3) have "lv \<noteq> []" by auto
  with sweep_loop_source [OF loop] have "sg_out1 w'" by blast
  with measure_iip2_aborted [OF assms(1) loop] w' show ?thesis by blast
qed

theorem failing_step_aborts_sweep_witness:
  "input_levels 1 3 3 = Inr [1, 2, 3] \<and> (1 :: real) \<noteq> 0 \<and>
   (1 :: nat) < length [1, 2, 3 :: real] \<and>
   1 < length (replies (idle_world [Samples [5, 5], Samples [7], Samples [5, 5]])) \<and>
   step_outcome (Samples [5, 5]) 1 2 4 = Inr (Fin 20) \<and>
   step_outcome (Samples [7]) 1 2 4 = Inl ValueError \<and>
   fst (measure_iip2 1 3 3 1 2 4 (idle_world [Samples [5, 5], Samples [7], Samples [5, 5]]))
     = Inl ValueError \<and>
   replies (snd (measure_iip2 1 3 3 1 2 4 (idle_world [Samples [5, 5], Samples [7], Samples [5, 5]])))
     = [Samples [5, 5]] \<and>
   printed (snd (measure_iip2 1 3 3 1 2 4 (idle_world [Samples [5, 5], Samples [7], Samples [5, 5]])))
     = [Level 1, Level 2]"
proof -
  let ?w = "idle_world [Samples [5, 5], Samples [7], Samples [5, 5]]"
  have r: "replies ?w = [Samples [5, 5], Samples [7], Samples [5, 5]]" "printed ?w = []"
    by (simp_all add: idle_world_def)
  have s0: "step_outcome (Samples [5, 5]) 1 2 4 = Inr (Fin 20)"
    by (simp add: step_outcome_def sweep_defs log_10_100)
  have s1: "step_outcome (Samples [7]) 1 2 4 = Inl ValueError"
    by (simp add: step_outcome_def sweep_defs)
  have h5: "\<forall>j<1. \<exists>p. step_outcome (replies ?w ! j) 1 2 4 = Inr p"
    using s0 r by simp
  have h6: "step_outcome (replies ?w ! 1) 1 2 4 = Inl ValueError"
    using s1 r by simp
  have "\<exists>w'. measure_iip2 1 3 3 1 2 4 ?w = (Inl ValueError, w') \<and>
           replies w' = drop (Suc 1) (replies ?w) \<and>
           printed w' = printed ?w @ map Level (take (Suc 1) [1, 2, 3]) \<and> sg_out1 w'"
    by (rule failing_step_aborts_sweep [OF levels_1_3_3 _ _ _ h5 h6]) (simp_all add: r)
  then obtain w' where "measure_iip2 1 3 3 1 2 4 ?w = (Inl ValueError, w')"
    "replies w' = [Samples [5, 5]]" "printed w' = [Level 1, Level 2]"
    using r by auto
  with levels_1_3_3 s0 s1 r show ?thesis by simp
qed

subsection \<open>Parameters are not validated\<close>

text \<open>
  Claim C8, as stated, at zero steps: \<open>measure_iip2\<close> raises nothing, returns two empty
  sequences and has written \<open>OUTP1 OFF\<close> to the signal generator. At the levels \<open>-1\<close> to
  \<open>-2\<close> (not positive, and stop below start) it runs the step and drives the generator.
\<close>

theorem zero_steps_counterexample:
  "fst (measure_iip2 1 2 0 1 2 4 (idle_world [])) = Inr ([], []) \<and>
   sg_log (snd (measure_iip2 1 2 0 1 2 4 (idle_world []))) = [OutpOff 1] \<and>
   sg_log (snd (measure_iip2 (- 1) (- 2) 1 1 2 4 (idle_world [Samples [5, 5]])))
     = [Apply ''SIN'' 1 (- 1) 0, OutpOn 1, OutpOff 1]"
  by (simp add: sweep_defs upt_rec)

text \<open>
  Claim C8, amended. \<open>measure_iip2\<close> validates none of its parameters and has no
  ConfigurationError. With zero steps it writes \<open>OUTP1 OFF\<close> to the signal generator and
  returns two empty sequences. With one step or more it starts the sweep whatever the
  levels are (not positive, stop below start): the first commands the generator receives
  are \<open>APPLy:SIN\<close> at the rounded start level and \<open>OUTP1 ON\<close>. Only a negative number of
  steps fails before any instrument is touched, with the ValueError of \<open>np.linspace\<close>.
\<close>

theorem no_parameter_validation:
  "(num < 0 \<longrightarrow> measure_iip2 start stop num f1 f2 fs w = (Inl ValueError, w)) \<and>
   (num = 0 \<longrightarrow> measure_iip2 start stop num f1 f2 fs w = (Inr ([], []), disable_output 1 w)) \<and>
   (1 \<le> num \<longrightarrow>
      (\<exists>cs. sg_log (snd (measure_iip2 start stop num f1 f2 fs w)) =
             sg_log w @ [Apply ''SIN'' f1 (np_round start 5) 0, OutpOn 1] @ cs))"
proof (intro conjI impI)
  assume "num < 0"
  then show "measure_iip2 start stop num f1 f2 fs w = (Inl ValueError, w)"
    by (simp add: measure_iip2_def input_levels_def linspace_def)
next
  assume "num = 0"
  then show "measure_iip2 start stop num f1 f2 fs w = (Inr ([], []), disable_output 1 w)"
    by (simp add: measure_iip2_def input_levels_def linspace_def del: One_nat_def)
next
  assume "1 \<le> num"
  from input_levels_hd [OF this, of start stop] obtain vs where
    lv: "input_levels start stop num = Inr (np_round start 5 # vs)" by blast
  let ?lv = "np_round start 5 # vs"
  obtain r w1 where loop: "sweep_loop f1 f2 fs ?lv [] w = (r, w1)"
    by (cases "sweep_loop f1 f2 fs ?lv [] w")
  from sweep_loop_source [OF loop] obtain cs where
    cs: "sg_log w1 = sg_log w @ step_commands f1 (np_round start 5) @ cs" by auto
  show "\<exists>cs. sg_log (snd (measure_iip2 start stop num f1 f2 fs w)) =
             sg_log w @ [Apply ''SIN'' f1 (np_round start 5) 0, OutpOn 1] @ cs"
  proof (cases r)
    case (Inl e)
    with loop measure_iip2_aborted [OF lv] have "measure_iip2 start stop num f1 f2 fs w = (Inl e, w1)"
      by simp
    with cs show ?thesis by (simp add: step_commands_def)
  next
    case (Inr ps)
    with loop have loop': "sweep_loop f1 f2 fs ?lv [] w = (Inr ps, w1)" by simp
    have "sg_log (snd (measure_iip2 start stop num f1 f2 fs w)) = sg_log w1 @ [OutpOff 1]"
      unfolding measure_iip2_completed [OF lv loop']
      by (simp add: disable_output_source print_line_source del: One_nat_def split: sum.splits)
    with cs show ?thesis by (simp add: step_commands_def)
  qed
qed

theorem no_parameter_validation_witness:
  "measure_iip2 1 2 (- 1) 1 2 4 (idle_world []) = (Inl ValueError, idle_world []) \<and>
   measure_iip2 (- 1) (- 2) 0 1 2 4 (idle_world []) = (Inr ([], []), disable_output 1 (idle_world [])) \<and>
   (\<exists>cs. sg_log (snd (measure_iip2 (- 1) (- 2) 1 1 2 4 (idle_world []))) =
          sg_log (idle_world []) @ [Apply ''SIN'' 1 (np_round (- 1) 5) 0, OutpOn 1] @ cs)"
  using no_parameter_validation [of "- 1" 1 2 1 2 4 "idle_world []"]
    no_parameter_validation [of 0 "- 1" "- 2" 1 2 4 "idle_world []"]
    no_parameter_validation [of 1 "- 1" "- 2" 1 2 4 "idle_world []"]
  by simp

subsection \<open>The intercept is printed\<close>

text \<open>
  Claim C9, as stated, at a sweep of two steps, both measured: the value returned is the
  pair of the levels and the product powers; the intercept, 1, is computed and printed,
  and is not part of what is returned.
\<close>

theorem intercept_not_returned_counterexample:
  "fst (measure_iip2 1 2 2 1 2 4 (idle_world [Samples [1 / 2, 1 / 2], Samples [5, 5]]))
     = Inr ([1, 2], [Fin 0, Fin 20]) \<and>
   calculate_intercept [1, 2] [Fin 0, Fin 20] = Inr (Fin 1) \<and>
   printed (snd (measure_iip2 1 2 2 1 2 4 (idle_world [Samples [1 / 2, 1 / 2], Samples [5, 5]])))
     = [Level 1, Level 2, IIP2 (Fin 1)]"
  by (simp add: sweep_defs upt_rec log_10_100)

text \<open>
  Claim C9, amended. A sweep that returns, returns the pair (levels, product powers) and
  nothing else, with one power for each level. If more than one step ran, the intercept
  \<open>calculate_intercept levels powers\<close> over all points was computed and printed as the
  last line; with at most one step no intercept is computed or printed.
\<close>

theorem intercept_printed_not_returned:
  assumes "measure_iip2 start stop num f1 f2 fs w = (Inr (lv, ps), w')"
  shows "input_levels start stop num = Inr lv \<and>
         fst (sweep_loop f1 f2 fs lv [] w) = Inr ps \<and>
         length ps = length lv \<and>
         (1 < length ps \<longrightarrow>
            (\<exists>ic. calculate_intercept lv ps = Inr ic \<and>
                  printed w' = printed w @ map Level lv @ [IIP2 ic])) \<and>
         (length ps \<le> 1 \<longrightarrow> printed w' = printed w @ map Level lv)"
proof -
  from measure_iip2_levels [OF assms] have lv: "input_levels start stop num = Inr lv" .
  obtain r w1 where loop: "sweep_loop f1 f2 fs lv [] w = (r, w1)"
    by (cases "sweep_loop f1 f2 fs lv [] w")
  show ?thesis
  proof (cases r)
    case (Inl e)
    with loop measure_iip2_aborted [OF lv] assms show ?thesis by simp
  next
    case (Inr qs)
    with loop have loop': "sweep_loop f1 f2 fs lv [] w = (Inr qs, w1)" by simp
    note m = measure_iip2_completed [OF lv loop']
    from sweep_loop_completed [OF loop']
    have c: "length qs = length lv" "printed w1 = printed w @ map Level lv" by simp_all
    from assms m have qs: "qs = ps"
      by (auto split: if_splits sum.splits)
    have long: "\<exists>ic. calculate_intercept lv ps = Inr ic \<and>
                  printed w' = printed w @ map Level lv @ [IIP2 ic]" if "1 < length ps"
      using that assms m qs c
      by (auto simp: disable_output_source print_line_source simp del: One_nat_def split: sum.splits)
    have short: "printed w' = printed w @ map Level lv" if "length ps \<le> 1"
      using that assms m qs c
      by (auto simp: disable_output_source simp del: One_nat_def)
    from lv loop' qs c long short show ?thesis by simp
  qed
qed

theorem intercept_printed_not_returned_witness:
  "measure_iip2 1 2 2 1 2 4 (idle_world [Samples [5, 5], Samples [1 / 2, 1 / 2]]) =
     (Inr ([1, 2], [Fin 20, Fin 0]),
      snd (measure_iip2 1 2 2 1 2 4 (idle_world [Samples [5, 5], Samples [1 / 2, 1 / 2]]))) \<and>
   (1 :: nat) < length [Fin 20, Fin 0] \<and>
   calculate_intercept [1, 2] [Fin 20, Fin 0] = Inr (Fin 2) \<and>
   printed (snd (measure_iip2 1 2 2 1 2 4 (idle_world [Samples [5, 5], Samples [1 / 2, 1 / 2]])))
     = [Level 1, Level 2, IIP2 (Fin 2)]"
proof -
  let ?w = "idle_world [Samples [5, 5], Samples [1 / 2, 1 / 2]]"
  have f: "fst (measure_iip2 1 2 2 1 2 4 ?w) = Inr ([1, 2], [Fin 20, Fin 0])"
    by (simp add: sweep_defs upt_rec log_10_100)
  then have m: "measure_iip2 1 2 2 1 2 4 ?w =
     (Inr ([1, 2], [Fin 20, Fin 0]), snd (measure_iip2 1 2 2 1 2 4 ?w))"
    by (metis prod.collapse)
  have ci: "calculate_intercept [1, 2] [Fin 20, Fin 0] = Inr (Fin 2)"
    by (simp add: calculate_intercept_def polyfit1_def np_divide_def)
  have p0: "printed ?w = []" by (simp add: idle_world_def)
  from intercept_printed_not_returned [OF m]
  have "1 < length [Fin 20, Fin 0] \<longrightarrow>
          (\<exists>ic. calculate_intercept [1, 2] [Fin 20, Fin 0] = Inr ic \<and>
             printed (snd (measure_iip2 1 2 2 1 2 4 ?w)) = printed ?w @ map Level [1, 2] @ [IIP2 ic])"
    by blast
  with ci p0 have "printed (snd (measure_iip2 1 2 2 1 2 4 ?w)) = [Level 1, Level 2, IIP2 (Fin 2)]"
    by simp
  with m ci show ?thesis by simp
qed

subsection \<open>The levels of a sweep\<close>






end
